theory Spec2Isabelle
  imports Complex_Main "HOL-Library.Sublist" "HOL-Library.Word"
begin

section \<open>The cells of the LDA tutorial notebook\<close>

text \<open>
  The notebook \<^verbatim>\<open>docs/src/auto_examples/tutorials/run_lda.ipynb\<close> is a linear script
  over one variable \<open>docs\<close>. Each cell is embedded as a function from the corpus before
  the cell to the corpus after it. What a cell calls and the notebook does not define
  (the Unicode tables of the interpreter, the network and archive libraries, the NLTK
  lemmatizer, the trained phrase model, the dictionary, the floating-point arithmetic)
  is an argument of the function that embeds the cell.
\<close>

subsection \<open>Python strings\<close>

text \<open>
  A Python \<open>str\<close> is a sequence of Unicode code points; \<open>len\<close> counts code points.
  Literals are written with \<open>py\<close>, which reads an ASCII literal as its code points.
\<close>

type_synonym codepoint = nat
type_synonym str = "codepoint list"

definition py :: "string \<Rightarrow> str" where
  "py s = map of_char s"

text \<open>
  The classes of the ASCII range are fixed by the language; those of the code points
  from 128 on come from the interpreter's Unicode database, which is a parameter.
  \<open>uni_lower\<close> is \<open>str.lower\<close> on a string that has a non-ASCII code point (the
  Unicode mapping is context sensitive, so it takes the whole string).
\<close>

record unicode_db =
  uni_word :: "codepoint \<Rightarrow> bool"
  uni_numeric :: "codepoint \<Rightarrow> bool"
  uni_lower :: "str \<Rightarrow> str"

definition is_ascii :: "codepoint \<Rightarrow> bool" where
  "is_ascii c \<longleftrightarrow> c < 128"

definition ascii_digit :: "codepoint \<Rightarrow> bool" where
  "ascii_digit c \<longleftrightarrow> 48 \<le> c \<and> c \<le> 57"

definition ascii_upper :: "codepoint \<Rightarrow> bool" where
  "ascii_upper c \<longleftrightarrow> 65 \<le> c \<and> c \<le> 90"

definition ascii_lower :: "codepoint \<Rightarrow> bool" where
  "ascii_lower c \<longleftrightarrow> 97 \<le> c \<and> c \<le> 122"

definition underscore :: codepoint where
  "underscore = 95"

text \<open>The regular-expression class \<open>\w\<close> of a \<open>str\<close> pattern: alphanumeric or underscore.\<close>

definition word_char :: "unicode_db \<Rightarrow> codepoint \<Rightarrow> bool" where
  "word_char U c =
     (if is_ascii c then ascii_digit c \<or> ascii_upper c \<or> ascii_lower c \<or> c = underscore
      else uni_word U c)"

definition numeric_char :: "unicode_db \<Rightarrow> codepoint \<Rightarrow> bool" where
  "numeric_char U c = (if is_ascii c then ascii_digit c else uni_numeric U c)"

text \<open>\<open>str.isnumeric()\<close>: every character is numeric and there is at least one.\<close>

definition isnumeric :: "unicode_db \<Rightarrow> str \<Rightarrow> bool" where
  "isnumeric U s \<longleftrightarrow> s \<noteq> [] \<and> list_all (numeric_char U) s"

definition lower_char :: "codepoint \<Rightarrow> codepoint" where
  "lower_char c = (if ascii_upper c then c + 32 else c)"

text \<open>\<open>str.lower()\<close>.\<close>

definition py_lower :: "unicode_db \<Rightarrow> str \<Rightarrow> str" where
  "py_lower U s = (if list_all is_ascii s then map lower_char s else uni_lower U s)"

text \<open>\<open>sub in s\<close> for a one-character \<open>sub\<close>.\<close>

definition contains_char :: "codepoint \<Rightarrow> str \<Rightarrow> bool" where
  "contains_char c s \<longleftrightarrow> c \<in> set s"

subsection \<open>Corpus acquisition (cell 4)\<close>

text \<open>
  \<open>member_bytes.decode('utf-8', errors='replace')\<close>. \<open>decode_one b rest\<close> reads the
  character that starts at byte \<open>b\<close>: the code point, or the fact that the bytes are not
  UTF-8, and in both cases how many bytes of \<open>rest\<close> it used. An undecodable sequence
  ends before the first byte that cannot continue it (the whole of a sequence cut short
  by the end of the data); the decoder resumes after it.
\<close>

type_synonym byte = "8 word"

definition is_continuation :: "byte \<Rightarrow> bool" where
  "is_continuation b \<longleftrightarrow> 0x80 \<le> b \<and> b \<le> 0xBF"

definition second_of_three :: "byte \<Rightarrow> byte \<Rightarrow> bool" where
  "second_of_three b b1 \<longleftrightarrow>
     is_continuation b1 \<and> \<not> (if b1 < 0xA0 then b = 0xE0 else b = 0xED)"

definition second_of_four :: "byte \<Rightarrow> byte \<Rightarrow> bool" where
  "second_of_four b b1 \<longleftrightarrow>
     is_continuation b1 \<and> \<not> (if b1 < 0x90 then b = 0xF0 else b = 0xF4)"

definition payload :: "byte \<Rightarrow> nat" where
  "payload b = unat b mod 64"

datatype utf8_step = Decoded codepoint nat | Undecodable nat

definition decode_one :: "byte \<Rightarrow> byte list \<Rightarrow> utf8_step" where
  "decode_one b rest =
     (if b < 0x80 then Decoded (unat b) 0
      else if b < 0xC2 then Undecodable 0
      else if b < 0xE0 then
        (case rest of
           [] \<Rightarrow> Undecodable 0
         | b1 # r1 \<Rightarrow>
             if is_continuation b1 then Decoded (unat b mod 32 * 64 + payload b1) 1
             else Undecodable 0)
      else if b < 0xF0 then
        (case rest of
           [] \<Rightarrow> Undecodable 0
         | b1 # r1 \<Rightarrow>
             if \<not> second_of_three b b1 then Undecodable 0
             else (case r1 of
                     [] \<Rightarrow> Undecodable 1
                   | b2 # r2 \<Rightarrow>
                       if is_continuation b2
                       then Decoded ((unat b mod 16 * 64 + payload b1) * 64 + payload b2) 2
                       else Undecodable 1))
      else if b < 0xF5 then
        (case rest of
           [] \<Rightarrow> Undecodable 0
         | b1 # r1 \<Rightarrow>
             if \<not> second_of_four b b1 then Undecodable 0
             else (case r1 of
                     [] \<Rightarrow> Undecodable 1
                   | b2 # r2 \<Rightarrow>
                       if \<not> is_continuation b2 then Undecodable 1
                       else (case r2 of
                               [] \<Rightarrow> Undecodable 2
                             | b3 # r3 \<Rightarrow>
                                 if is_continuation b3
                                 then Decoded (((unat b mod 8 * 64 + payload b1) * 64 + payload b2) * 64
                                               + payload b3) 3
                                 else Undecodable 2)))
      else Undecodable 0)"

definition replacement_character :: codepoint where
  "replacement_character = 0xFFFD"

fun decode_replace :: "byte list \<Rightarrow> str" where
  "decode_replace [] = []"
| "decode_replace (b # rest) =
     (case decode_one b rest of
        Decoded c n \<Rightarrow> c # decode_replace (drop n rest)
      | Undecodable n \<Rightarrow> replacement_character # decode_replace (drop n rest))"

text \<open>
  The same decoder with \<open>errors='strict'\<close>, which raises at the first undecodable
  sequence. The notebook does not call it; it says of which byte strings decoding fails.
\<close>

datatype decode_error = UnicodeDecodeError

fun decode_strict :: "byte list \<Rightarrow> decode_error + str" where
  "decode_strict [] = Inr []"
| "decode_strict (b # rest) =
     (case decode_one b rest of
        Decoded c n \<Rightarrow>
          (case decode_strict (drop n rest) of Inl e \<Rightarrow> Inl e | Inr s \<Rightarrow> Inr (c # s))
      | Undecodable n \<Rightarrow> Inl UnicodeDecodeError)"

text \<open>
  What the archive library returns for a member: its name, whether it is a regular file
  (\<open>member.isfile()\<close>), and the result of \<open>tar.extractfile(member).read()\<close>, which is
  the bytes or an exception of the library's (\<open>'e\<close>).
\<close>

record 'e tar_member =
  member_name :: str
  member_isfile :: bool
  member_read :: "'e + byte list"

text \<open>
  The loop \<open>for member in tar.getmembers()\<close> of the generator, as \<open>list(...)\<close> consumes
  it: the documents yielded, or the first exception raised. \<open>re_search name\<close> says
  whether \<open>re.search(r'nipstxt/nips\d+/\d+\.txt', name)\<close> finds a match.
\<close>

fun extract_members :: "(str \<Rightarrow> bool) \<Rightarrow> 'e tar_member list \<Rightarrow> 'e + str list" where
  "extract_members re_search [] = Inr []"
| "extract_members re_search (member # members) =
     (if member_isfile member \<and> re_search (member_name member) then
        (case member_read member of
           Inl e \<Rightarrow> Inl e
         | Inr member_bytes \<Rightarrow>
             (case extract_members re_search members of
                Inl e \<Rightarrow> Inl e
              | Inr docs \<Rightarrow> Inr (decode_replace member_bytes # docs)))
      else extract_members re_search members)"

text \<open>
  \<open>docs = list(extract_documents())\<close>. \<open>smart_open url\<close> is \<open>smart_open.open(url, "rb")\<close>,
  \<open>tarfile_open file\<close> is \<open>tarfile.open(fileobj=file)\<close> and \<open>getmembers tar\<close> is
  \<open>tar.getmembers()\<close>; each returns its value or raises. The function has no handler, so
  an exception leaves it.
\<close>

definition extract_documents ::
  "(str \<Rightarrow> 'e + 'f) \<Rightarrow> ('f \<Rightarrow> 'e + 'a) \<Rightarrow> ('a \<Rightarrow> 'e + 'e tar_member list) \<Rightarrow> (str \<Rightarrow> bool)
   \<Rightarrow> str \<Rightarrow> 'e + str list" where
  "extract_documents smart_open tarfile_open getmembers re_search url =
     (case smart_open url of
        Inl e \<Rightarrow> Inl e
      | Inr file \<Rightarrow>
          (case tarfile_open file of
             Inl e \<Rightarrow> Inl e
           | Inr tar \<Rightarrow>
               (case getmembers tar of
                  Inl e \<Rightarrow> Inl e
                | Inr members \<Rightarrow> extract_members re_search members)))"

text \<open>The members the loop reads and decodes.\<close>

definition selected :: "(str \<Rightarrow> bool) \<Rightarrow> 'e tar_member list \<Rightarrow> 'e tar_member list" where
  "selected re_search members =
     filter (\<lambda>member. member_isfile member \<and> re_search (member_name member)) members"

subsection \<open>Tokenization and filtering (cell 8)\<close>

text \<open>
  \<open>RegexpTokenizer(r'\w+').tokenize(s)\<close> returns \<open>re.findall(r'\w+', s)\<close>: the maximal
  runs of word characters, left to right. \<open>scan_words U cur s\<close> holds the run read so
  far in \<open>cur\<close>.
\<close>

fun scan_words :: "unicode_db \<Rightarrow> str \<Rightarrow> str \<Rightarrow> str list" where
  "scan_words U cur [] = (if cur = [] then [] else [cur])"
| "scan_words U cur (c # cs) =
     (if word_char U c then scan_words U (cur @ [c]) cs
      else (if cur = [] then [] else [cur]) @ scan_words U [] cs)"

definition regexp_tokenize :: "unicode_db \<Rightarrow> str \<Rightarrow> str list" where
  "regexp_tokenize U s = scan_words U [] s"

text \<open>
  The first loop, \<open>docs[idx] = docs[idx].lower(); docs[idx] = tokenizer.tokenize(docs[idx])\<close>
  for \<open>idx in range(len(docs))\<close>, overwrites each slot of \<open>docs\<close> in place, first with
  the lowercased string, then with its token list, so a slot holds a string or a token
  list. \<open>lower\<close> and \<open>tokenize\<close> raise on a token list.
\<close>

datatype slot = Str str | Toks "str list"

datatype py_error = AttributeError | TypeError

definition lower_slot :: "unicode_db \<Rightarrow> slot \<Rightarrow> py_error + slot" where
  "lower_slot U s = (case s of Str d \<Rightarrow> Inr (Str (py_lower U d)) | Toks ts \<Rightarrow> Inl AttributeError)"

definition tokenize_slot :: "unicode_db \<Rightarrow> slot \<Rightarrow> py_error + slot" where
  "tokenize_slot U s = (case s of Str d \<Rightarrow> Inr (Toks (regexp_tokenize U d)) | Toks ts \<Rightarrow> Inl TypeError)"

function tokenize_loop :: "unicode_db \<Rightarrow> nat \<Rightarrow> slot list \<Rightarrow> py_error + slot list" where
  "tokenize_loop U idx docs =
     (if idx < length docs then
        (case lower_slot U (docs ! idx) of
           Inl e \<Rightarrow> Inl e
         | Inr low \<Rightarrow>
            (case tokenize_slot U (docs[idx := low] ! idx) of
               Inl e \<Rightarrow> Inl e
             | Inr toks \<Rightarrow> tokenize_loop U (Suc idx) (docs[idx := low, idx := toks])))
      else Inr docs)"
  by pat_completeness auto
termination
  by (relation "measure (\<lambda>(U, idx, docs). length docs - idx)") auto

declare tokenize_loop.simps [simp del]

text \<open>Iterating a slot: a token list yields its tokens, a string its characters.\<close>

definition slot_items :: "slot \<Rightarrow> str list" where
  "slot_items s = (case s of Toks ts \<Rightarrow> ts | Str d \<Rightarrow> map (\<lambda>c. [c]) d)"

text \<open>\<open>[[token for token in doc if not token.isnumeric()] for doc in docs]\<close>\<close>

definition remove_numbers :: "unicode_db \<Rightarrow> str list list \<Rightarrow> str list list" where
  "remove_numbers U docs = map (\<lambda>doc. filter (\<lambda>token. \<not> isnumeric U token) doc) docs"

text \<open>\<open>[[token for token in doc if len(token) > 1] for doc in docs]\<close>\<close>

definition remove_single_chars :: "str list list \<Rightarrow> str list list" where
  "remove_single_chars docs = map (\<lambda>doc. filter (\<lambda>token. length token > 1) doc) docs"

text \<open>The whole cell, from the list of raw document strings.\<close>

definition tokenize_documents :: "unicode_db \<Rightarrow> str list \<Rightarrow> py_error + str list list" where
  "tokenize_documents U raw =
     (case tokenize_loop U 0 (map Str raw) of
        Inl e \<Rightarrow> Inl e
      | Inr docs \<Rightarrow> Inr (remove_single_chars (remove_numbers U (map slot_items docs))))"

text \<open>What the cell does to one raw document.\<close>

definition tokenize_document :: "unicode_db \<Rightarrow> str \<Rightarrow> str list" where
  "tokenize_document U d =
     filter (\<lambda>token. length token > 1)
       (filter (\<lambda>token. \<not> isnumeric U token) (regexp_tokenize U (py_lower U d)))"

subsection \<open>Lemmatization (cell 10)\<close>

text \<open>
  \<open>[[lemmatizer.lemmatize(token) for token in doc] for doc in docs]\<close>, with the NLTK
  lemmatizer as the argument \<open>lemmatize\<close>.
\<close>

definition lemmatize_documents :: "(str \<Rightarrow> str) \<Rightarrow> str list list \<Rightarrow> str list list" where
  "lemmatize_documents lemmatize docs = map (\<lambda>doc. map lemmatize doc) docs"

subsection \<open>Phrase augmentation (cell 12)\<close>

definition min_count :: nat where
  "min_count = 20"

text \<open>
  The inner loop \<open>for token in bigram[docs[idx]]: if '_' in token: docs[idx].append(token)\<close>.
  \<open>bigram[docs[idx]]\<close> is a list of its own, built before the loop body runs;
  \<open>append_bigrams doc tokens\<close> is the document after the tokens still to visit.
\<close>

fun append_bigrams :: "str list \<Rightarrow> str list \<Rightarrow> str list" where
  "append_bigrams doc [] = doc"
| "append_bigrams doc (token # rest) =
     append_bigrams (if contains_char underscore token then doc @ [token] else doc) rest"

text \<open>The outer loop \<open>for idx in range(len(docs))\<close>, for a trained phrase model \<open>bigram\<close>.\<close>

function add_bigrams_loop :: "(str list \<Rightarrow> str list) \<Rightarrow> nat \<Rightarrow> str list list \<Rightarrow> str list list" where
  "add_bigrams_loop bigram idx docs =
     (if idx < length docs then
        add_bigrams_loop bigram (Suc idx)
          (docs[idx := append_bigrams (docs ! idx) (bigram (docs ! idx))])
      else docs)"
  by pat_completeness auto
termination
  by (relation "measure (\<lambda>(bigram, idx, docs). length docs - idx)") auto

declare add_bigrams_loop.simps [simp del]

text \<open>
  The cell: \<open>bigram = Phrases(docs, min_count=20)\<close> trains on the corpus as it is before
  the loop. \<open>phrases docs n\<close> is the trained model, as the function that \<open>bigram[...]\<close>
  applies to a token list.
\<close>

definition add_bigrams ::
  "(str list list \<Rightarrow> nat \<Rightarrow> str list \<Rightarrow> str list) \<Rightarrow> str list list \<Rightarrow> str list list" where
  "add_bigrams phrases docs = add_bigrams_loop (phrases docs min_count) 0 docs"

text \<open>What the cell does to one document, for a trained model.\<close>

definition augment :: "(str list \<Rightarrow> str list) \<Rightarrow> str list \<Rightarrow> str list" where
  "augment bigram doc = doc @ filter (contains_char underscore) (bigram doc)"


subsection \<open>Vectorization (cells 14 and 16)\<close>

definition no_below :: nat where
  "no_below = 20"

definition no_above :: real where
  "no_above = 0.5"

text \<open>
  \<open>dictionary = Dictionary(docs); dictionary.filter_extremes(no_below=20, no_above=0.5);
  corpus = [dictionary.doc2bow(doc) for doc in docs]\<close>, with the three dictionary
  operations as arguments.
\<close>

definition vectorize ::
  "(str list list \<Rightarrow> 'd) \<Rightarrow> (nat \<Rightarrow> real \<Rightarrow> 'd \<Rightarrow> 'd) \<Rightarrow> ('d \<Rightarrow> str list \<Rightarrow> (nat \<times> nat) list)
   \<Rightarrow> str list list \<Rightarrow> (nat \<times> nat) list list" where
  "vectorize mk_dictionary filter_ext bow docs =
     (let dictionary = filter_ext no_below no_above (mk_dictionary docs)
      in map (\<lambda>doc. bow dictionary doc) docs)"

subsection \<open>The preprocessing cells together (cells 8 to 12)\<close>

text \<open>From the raw document strings to the augmented token lists.\<close>

definition preprocess ::
  "unicode_db \<Rightarrow> (str \<Rightarrow> str) \<Rightarrow> (str list list \<Rightarrow> nat \<Rightarrow> str list \<Rightarrow> str list)
   \<Rightarrow> str list \<Rightarrow> py_error + str list list" where
  "preprocess U lemmatize phrases raw =
     (case tokenize_documents U raw of
        Inl e \<Rightarrow> Inl e
      | Inr docs \<Rightarrow> Inr (add_bigrams phrases (lemmatize_documents lemmatize docs)))"

subsection \<open>Average topic coherence (cells 20 and 22)\<close>





section \<open>Library operations the notebook calls\<close>

text \<open>
  The notebook calls gensim's \<open>Phrases\<close> and \<open>Dictionary\<close>; their code is not in the
  notebook. The definitions of this section follow the contracts the specification
  gives for them, and can stand for the function arguments of the cells above.
\<close>

subsection \<open>Phrase detector\<close>

text \<open>
  Modelled from the spec: the training pass of \<open>Phrases\<close> is missing. The adjacent
  token pairs of one document, and the number of times a pair occurs in the corpus
  (section 4.4: the corpus-wide co-occurrence count).
\<close>

definition adjacent_pairs :: "str list \<Rightarrow> (str \<times> str) list" where
  "adjacent_pairs doc = zip doc (tl doc)"

definition cooccurrence_count :: "str list list \<Rightarrow> str \<Rightarrow> str \<Rightarrow> nat" where
  "cooccurrence_count docs a b = count_list (concat (map adjacent_pairs docs)) (a, b)"

text \<open>
  Modelled from the spec: the promotion rule of \<open>Phrases\<close> is missing. A pair is
  promoted if its count meets or exceeds the configured minimum (section 4.4).
\<close>

definition promoted :: "str list list \<Rightarrow> nat \<Rightarrow> str \<Rightarrow> str \<Rightarrow> bool" where
  "promoted docs n a b \<longleftrightarrow> n \<le> cooccurrence_count docs a b"

text \<open>
  Modelled from the spec: the phrase token of \<open>Phrases\<close> is missing. Two unigrams
  joined by an underscore (section 3).
\<close>

definition phrase_token :: "str \<Rightarrow> str \<Rightarrow> str" where
  "phrase_token a b = a @ [underscore] @ b"

text \<open>
  Modelled from the spec: the application \<open>bigram[doc]\<close> of \<open>Phrases\<close> is missing.
  Section 4.4 leaves open whether the result substitutes or augments; here a promoted
  pair is substituted by its phrase token, scanning from the left, and the cell of the
  notebook does the augmenting.
\<close>

fun apply_phrases :: "(str \<Rightarrow> str \<Rightarrow> bool) \<Rightarrow> str list \<Rightarrow> str list" where
  "apply_phrases is_phrase (a # b # rest) =
     (if is_phrase a b then phrase_token a b # apply_phrases is_phrase rest
      else a # apply_phrases is_phrase (b # rest))"
| "apply_phrases is_phrase doc = doc"

text \<open>
  Modelled from the spec: the class \<open>Phrases\<close> is missing. \<open>Phrases docs n\<close> is the
  detector trained once over the whole corpus with minimum count \<open>n\<close>, as the function
  it applies to a document.
\<close>

definition Phrases :: "str list list \<Rightarrow> nat \<Rightarrow> str list \<Rightarrow> str list" where
  "Phrases docs n = apply_phrases (promoted docs n)"

subsection \<open>Dictionary\<close>

text \<open>
  Modelled from the spec: the document frequency kept by \<open>Dictionary\<close> is missing. The
  number of documents that contain at least one occurrence of the token (glossary).
\<close>

definition doc_freq :: "str list list \<Rightarrow> str \<Rightarrow> nat" where
  "doc_freq docs t = length (filter (\<lambda>doc. t \<in> set doc) docs)"

text \<open>
  Modelled from the spec: the id assignment of \<open>Dictionary\<close> is missing. The distinct
  tokens in first-seen order (section 4.5).
\<close>

definition first_seen :: "'a list \<Rightarrow> 'a list" where
  "first_seen xs = rev (remdups (rev xs))"

text \<open>
  Modelled from the spec: the class \<open>Dictionary\<close> is missing. A mapping between tokens
  and integer ids, kept as the list of its (token, id) pairs, a document frequency for
  each token and the number of documents (sections 3 and 4.5).
\<close>

record dictionary =
  token2id :: "(str \<times> nat) list"
  dfs :: "str \<Rightarrow> nat"
  num_docs :: nat

text \<open>
  Modelled from the spec: the constructor \<open>Dictionary(docs)\<close> is missing. It reads the
  whole corpus once and numbers the distinct tokens from 0 in first-seen order.
\<close>

definition Dictionary :: "str list list \<Rightarrow> dictionary" where
  "Dictionary docs =
     (let tokens = first_seen (concat docs)
      in \<lparr>token2id = zip tokens [0..<length tokens], dfs = doc_freq docs, num_docs = length docs\<rparr>)"

text \<open>
  Modelled from the spec: the method \<open>filter_extremes\<close> is missing. It removes every
  token whose document frequency is below \<open>nb\<close> or above the fraction \<open>na\<close> of the
  number of documents, and leaves the ids of the others as they are (section 4.5).
\<close>

definition filter_extremes :: "nat \<Rightarrow> real \<Rightarrow> dictionary \<Rightarrow> dictionary" where
  "filter_extremes nb na d =
     d\<lparr>token2id :=
         filter (\<lambda>(t, i). \<not> (dfs d t < nb \<or> real (dfs d t) > na * real (num_docs d)))
           (token2id d)\<rparr>"

text \<open>
  Modelled from the spec: the method \<open>doc2bow\<close> is missing. The (id, count) pairs of the
  vocabulary tokens that occur in the document; a token that is not in the vocabulary
  contributes nothing (section 4.6).
\<close>

definition doc2bow :: "dictionary \<Rightarrow> str list \<Rightarrow> (nat \<times> nat) list" where
  "doc2bow d doc =
     map (\<lambda>(t, i). (i, count_list doc t)) (filter (\<lambda>(t, i). t \<in> set doc) (token2id d))"

text \<open>
  Modelled from the spec: the two views of the mapping of \<open>Dictionary\<close> are missing. The
  tokens and the ids of a dictionary.
\<close>

definition vocabulary :: "dictionary \<Rightarrow> str set" where
  "vocabulary d = fst ` set (token2id d)"

definition ids :: "dictionary \<Rightarrow> nat set" where
  "ids d = snd ` set (token2id d)"

section \<open>Example corpora\<close>

text \<open>A corpus of 100 one-token documents, \<open>n\<close> of which hold the token \<open>topic\<close>.\<close>

definition hundred_docs :: "nat \<Rightarrow> str list list" where
  "hundred_docs n = replicate n [py ''topic''] @ replicate (100 - n) [py ''model'']"

text \<open>The toy corpus of the specification's end-to-end scenario, tokenized.\<close>

definition toy_docs :: "str list list" where
  "toy_docs = [[py ''cat'', py ''dog'', py ''cat''], [py ''dog'', py ''bird''],
               [py ''cat'', py ''dog'', py ''bird'', py ''fish'']]"


text \<open>A corpus of two tokenized documents.\<close>

definition two_docs :: "str list list" where
  "two_docs = [[py ''a1''], [py ''lda'', py ''7'', py ''x'', py ''topics'']]"

section \<open>Properties\<close>

lemmas str_defs =
  py_def is_ascii_def ascii_digit_def ascii_upper_def ascii_lower_def underscore_def
  word_char_def numeric_char_def isnumeric_def lower_char_def py_lower_def contains_char_def

subsection \<open>Corpus acquisition\<close>

lemma decode_strict_ok: "decode_strict bs = Inr s \<Longrightarrow> decode_replace bs = s"
proof (induction bs arbitrary: s rule: decode_replace.induct)
  case 1
  then show ?case by simp
next
  case (2 b rest)
  show ?case
  proof (cases "decode_one b rest")
    case (Decoded c n)
    with 2 show ?thesis by (auto split: sum.splits)
  next
    case (Undecodable n)
    with 2 show ?thesis by simp
  qed
qed

lemma decode_strict_fails:
  "decode_strict bs = Inl e \<Longrightarrow> replacement_character \<in> set (decode_replace bs)"
proof (induction bs rule: decode_replace.induct)
  case 1
  then show ?case by simp
next
  case (2 b rest)
  show ?case
  proof (cases "decode_one b rest")
    case (Decoded c n)
    with 2 show ?thesis by (auto split: sum.splits)
  next
    case (Undecodable n)
    with 2 show ?thesis by simp
  qed
qed

lemma extract_members_ok:
  "map member_read (selected re_search members) = map Inr bss \<Longrightarrow>
   extract_members re_search members = Inr (map decode_replace bss)"
proof (induction members arbitrary: bss)
  case Nil
  then show ?case by (simp add: selected_def)
next
  case (Cons m members)
  show ?case
  proof (cases "member_isfile m \<and> re_search (member_name m)")
    case True
    with Cons.prems obtain bs bss' where bss: "bss = bs # bss'"
      and m: "member_read m = Inr bs"
      and rest: "map member_read (selected re_search members) = map Inr bss'"
      by (cases bss) (auto simp: selected_def)
    from Cons.IH [OF rest] True m bss show ?thesis by simp
  next
    case False
    with Cons.prems have "map member_read (selected re_search members) = map Inr bss"
      by (auto simp: selected_def)
    from Cons.IH [OF this] False show ?thesis by auto
  qed
qed

lemma extract_members_fail:
  "m \<in> set (selected re_search members) \<Longrightarrow> member_read m = Inl e \<Longrightarrow>
   \<exists>e'. extract_members re_search members = Inl e'"
proof (induction members)
  case Nil
  then show ?case by (simp add: selected_def)
next
  case (Cons x members)
  show ?case
  proof (cases "m \<in> set (selected re_search members)")
    case True
    from Cons.IH [OF True Cons.prems(2)] show ?thesis
      by (auto split: sum.splits)
  next
    case False
    with Cons.prems have "x = m" "member_isfile x \<and> re_search (member_name x)"
      by (auto simp: selected_def split: if_splits)
    with Cons.prems(2) show ?thesis by simp
  qed
qed

lemma decode_one_Decoded:
  "decode_one b rest = Decoded c n \<Longrightarrow>
   n \<le> length rest \<and> decode_one b (take n rest @ ys) = Decoded c n"
  by (auto simp: decode_one_def split: if_splits list.splits)

lemma decode_one_Undecodable:
  "decode_one b rest = Undecodable n \<Longrightarrow> n \<le> length rest"
  by (auto simp: decode_one_def split: if_splits list.splits)

lemma decode_one_append:
  assumes "decode_one b rest = Decoded c n"
  shows "decode_one b (rest @ xs) = Decoded c n"
proof -
  have whole: "take n rest @ drop n rest @ xs = rest @ xs"
    by (metis append_assoc append_take_drop_id)
  from decode_one_Decoded [OF assms, of "drop n rest @ xs"]
  have "decode_one b (take n rest @ drop n rest @ xs) = Decoded c n" by blast
  then show ?thesis unfolding whole .
qed

lemma decode_replace_valid_prefix:
  "decode_strict pre = Inr s \<Longrightarrow> decode_replace (pre @ xs) = s @ decode_replace xs"
proof (induction pre arbitrary: s rule: decode_strict.induct)
  case 1
  then show ?case by simp
next
  case (2 b rest)
  show ?case
  proof (cases "decode_one b rest")
    case (Decoded c n)
    with "2.prems" obtain s' where s': "decode_strict (drop n rest) = Inr s'" and s: "s = c # s'"
      by (auto split: sum.splits)
    from decode_one_Decoded [OF Decoded] have n: "n \<le> length rest" by simp
    have "decode_replace ((b # rest) @ xs) = c # decode_replace (drop n (rest @ xs))"
      using decode_one_append [OF Decoded, of xs] by simp
    also have "drop n (rest @ xs) = drop n rest @ xs"
      using n by simp
    also have "decode_replace (drop n rest @ xs) = s' @ decode_replace xs"
      using "2.IH" [OF Decoded s'] .
    finally show ?thesis by (simp add: s)
  next
    case (Undecodable n)
    with "2.prems" show ?thesis by simp
  qed
qed

lemma first_undecodable:
  "decode_strict bs = Inl e \<Longrightarrow>
   \<exists>pre s b r n. bs = pre @ b # r \<and> decode_strict pre = Inr s
      \<and> decode_one b r = Undecodable n \<and> n \<le> length r"
proof (induction bs rule: decode_strict.induct)
  case 1
  then show ?case by simp
next
  case (2 b rest)
  show ?case
  proof (cases "decode_one b rest")
    case (Decoded c n)
    with "2.prems" have "decode_strict (drop n rest) = Inl e"
      by (auto split: sum.splits)
    from "2.IH" [OF Decoded this] obtain pre s b' r m where
      split: "drop n rest = pre @ b' # r" and pre: "decode_strict pre = Inr s"
      and bad: "decode_one b' r = Undecodable m" and m: "m \<le> length r"
      by blast
    from decode_one_Decoded [OF Decoded, of pre]
    have n: "n \<le> length rest" and one: "decode_one b (take n rest @ pre) = Decoded c n"
      by simp_all
    have "decode_strict (b # take n rest @ pre) = Inr (c # s)"
      using one pre n by simp
    moreover have "b # rest = (b # take n rest @ pre) @ b' # r"
      using split append_take_drop_id [of n rest] by (metis append_Cons append_assoc)
    ultimately show ?thesis using bad m by blast
  next
    case (Undecodable n)
    from decode_one_Undecodable [OF this] have "n \<le> length rest" .
    with Undecodable have "b # rest = [] @ b # rest \<and> decode_strict [] = Inr []
        \<and> decode_one b rest = Undecodable n \<and> n \<le> length rest"
      by simp
    then show ?thesis by blast
  qed
qed

lemma decode_replace_at_undecodable:
  "decode_strict pre = Inr s \<Longrightarrow> decode_one b r = Undecodable n \<Longrightarrow>
   decode_replace (pre @ b # r) = s @ replacement_character # decode_replace (drop n r)"
  by (simp add: decode_replace_valid_prefix)

text \<open>
  C7. When the remote file opens, the archive parses and the selected members can be
  read, the extraction returns one document per selected member, whatever the bytes of
  the members are. Where strict decoding of a member's bytes would succeed, the document
  is the decoded text. Where it would fail, the bytes have a first undecodable sequence
  (a byte \<open>b\<close> and the \<open>n\<close> bytes after it) behind a decodable prefix, and the document
  is the text of the prefix, then one replacement character U+FFFD in the place of the
  sequence, then the document of the bytes behind the sequence, where the same holds
  again. An exception of opening the remote file, of opening the archive, of listing
  its members or of reading a selected member is the result of the whole extraction:
  no document list is returned.
\<close>

theorem decode_errors_not_fatal:
  fixes smart_open :: "str \<Rightarrow> 'e + 'f" and tarfile_open :: "'f \<Rightarrow> 'e + 'a"
    and getmembers :: "'a \<Rightarrow> 'e + 'e tar_member list"
  shows
  "(smart_open url = Inr file \<and> tarfile_open file = Inr tar \<and> getmembers tar = Inr members
      \<and> map member_read (selected re_search members) = map Inr bss
    \<longrightarrow> extract_documents smart_open tarfile_open getmembers re_search url
          = Inr (map decode_replace bss))
   \<and> (decode_strict bs = Inl UnicodeDecodeError \<longrightarrow> replacement_character \<in> set (decode_replace bs))
   \<and> (decode_strict bs = Inr s \<longrightarrow> decode_replace bs = s)
   \<and> (smart_open url = Inl e
        \<longrightarrow> extract_documents smart_open tarfile_open getmembers re_search url = Inl e)
   \<and> (smart_open url = Inr file \<and> tarfile_open file = Inl e
        \<longrightarrow> extract_documents smart_open tarfile_open getmembers re_search url = Inl e)
   \<and> (smart_open url = Inr file \<and> tarfile_open file = Inr tar \<and> getmembers tar = Inl e
        \<longrightarrow> extract_documents smart_open tarfile_open getmembers re_search url = Inl e)
   \<and> (smart_open url = Inr file \<and> tarfile_open file = Inr tar \<and> getmembers tar = Inr members
        \<and> m \<in> set (selected re_search members) \<and> member_read m = Inl e
        \<longrightarrow> (\<exists>e'. extract_documents smart_open tarfile_open getmembers re_search url = Inl e'))
   \<and> (decode_strict pre = Inr decoded \<and> decode_one b r = Undecodable n
        \<longrightarrow> decode_replace (pre @ b # r)
            = decoded @ replacement_character # decode_replace (drop n r))
   \<and> (decode_strict bs = Inl UnicodeDecodeError
        \<longrightarrow> (\<exists>pre' decoded' b' r' n'. bs = pre' @ b' # r' \<and> decode_strict pre' = Inr decoded'
              \<and> decode_one b' r' = Undecodable n' \<and> n' \<le> length r'))"
  using extract_members_ok [of re_search members bss] extract_members_fail [of m re_search members e]
    decode_strict_ok [of bs s] decode_strict_fails [of bs UnicodeDecodeError]
    decode_replace_at_undecodable [of pre decoded b r n] first_undecodable [of bs UnicodeDecodeError]
  by (simp add: extract_documents_def)

theorem decode_errors_not_fatal_witness:
  "extract_documents (\<lambda>url. Inr ()) (\<lambda>file. Inr ())
      (\<lambda>tar. Inr [\<lparr>member_name = py ''nipstxt/nips12/0001.txt'', member_isfile = True,
                    member_read = Inr [0x61, 0xFF, 0x62, 0xC3, 0x28]\<rparr>,
                  \<lparr>member_name = py ''nipstxt/nips12'', member_isfile = False,
                    member_read = Inl ''not a file''\<rparr>,
                  \<lparr>member_name = py ''nipstxt/README'', member_isfile = True,
                    member_read = Inr [0x68, 0x69]\<rparr>])
      (\<lambda>name. name = py ''nipstxt/nips12/0001.txt'')
      (py ''https://cs.nyu.edu/~roweis/data/nips12raw_str602.tgz'')
     = (Inr [[0x61, 0xFFFD, 0x62, 0xFFFD, 0x28]] :: string + str list)
   \<and> decode_strict [0x61, 0xFF, 0x62, 0xC3, 0x28] = Inl UnicodeDecodeError
   \<and> decode_strict [0x61] = Inr [0x61] \<and> decode_one 0xFF [0x62, 0xC3, 0x28] = Undecodable 0
   \<and> decode_replace ([0x61] @ 0xFF # [0x62, 0xC3, 0x28])
       = [0x61] @ replacement_character # decode_replace (drop 0 [0x62, 0xC3, 0x28])
   \<and> decode_strict [0x62] = Inr [0x62] \<and> decode_one 0xC3 [0x28] = Undecodable 0
   \<and> decode_replace ([0x62] @ 0xC3 # [0x28])
       = [0x62] @ replacement_character # decode_replace (drop 0 [0x28])
   \<and> replacement_character \<in> set (decode_replace [0x61, 0xFF, 0x62, 0xC3, 0x28])
   \<and> extract_documents (\<lambda>url. Inl ''connection refused'') (\<lambda>file. Inr ())
        (\<lambda>tar. Inr ([] :: string tar_member list))
        (\<lambda>name. name = py ''nipstxt/nips12/0001.txt'')
        (py ''https://cs.nyu.edu/~roweis/data/nips12raw_str602.tgz'')
     = Inl ''connection refused''"
proof -
  let ?url = "py ''https://cs.nyu.edu/~roweis/data/nips12raw_str602.tgz''"
  let ?search = "\<lambda>name. name = py ''nipstxt/nips12/0001.txt''"
  let ?bytes = "[0x61, 0xFF, 0x62, 0xC3, 0x28] :: byte list"
  let ?members = "[\<lparr>member_name = py ''nipstxt/nips12/0001.txt'', member_isfile = True,
                    member_read = Inr ?bytes\<rparr>,
                  \<lparr>member_name = py ''nipstxt/nips12'', member_isfile = False,
                    member_read = Inl ''not a file''\<rparr>,
                  \<lparr>member_name = py ''nipstxt/README'', member_isfile = True,
                    member_read = Inr [0x68, 0x69]\<rparr>] :: string tar_member list"
  have sel: "map member_read (selected ?search ?members) = map Inr [?bytes]"
    by (simp add: selected_def py_def)
  have strict: "decode_strict ?bytes = Inl UnicodeDecodeError"
    by (simp add: decode_one_def)
  have repl: "decode_replace ?bytes = [0x61, 0xFFFD, 0x62, 0xFFFD, 0x28]"
    by (simp add: decode_one_def replacement_character_def is_continuation_def)
  have pre1: "decode_strict [0x61] = Inr [0x61]" and bad1: "decode_one 0xFF [0x62, 0xC3, 0x28] = Undecodable 0"
    and pre2: "decode_strict [0x62] = Inr [0x62]" and bad2: "decode_one 0xC3 [0x28] = Undecodable 0"
    by (simp_all add: decode_one_def is_continuation_def)
  note inst = decode_errors_not_fatal [of "\<lambda>url. Inr ()" ?url "()" "\<lambda>file. Inr ()" "()"
      "\<lambda>tar. Inr ?members" ?members ?search "[?bytes]" ?bytes]
  from inst sel have "extract_documents (\<lambda>url. Inr ()) (\<lambda>file. Inr ()) (\<lambda>tar. Inr ?members)
      ?search ?url = Inr (map decode_replace [?bytes])"
    by simp
  moreover from inst strict have "replacement_character \<in> set (decode_replace ?bytes)"
    by blast
  moreover from inst [where pre = "[0x61]" and decoded = "[0x61]" and b = "0xFF"
      and r = "[0x62, 0xC3, 0x28]" and n = 0] pre1 bad1
  have "decode_replace ([0x61] @ 0xFF # [0x62, 0xC3, 0x28])
       = [0x61] @ replacement_character # decode_replace (drop 0 [0x62, 0xC3, 0x28])"
    by blast
  moreover from inst [where pre = "[0x62]" and decoded = "[0x62]" and b = "0xC3"
      and r = "[0x28]" and n = 0] pre2 bad2
  have "decode_replace ([0x62] @ 0xC3 # [0x28])
       = [0x62] @ replacement_character # decode_replace (drop 0 [0x28])"
    by blast
  moreover have "extract_documents (\<lambda>url. Inl ''connection refused'') (\<lambda>file. Inr ())
        (\<lambda>tar. Inr ([] :: string tar_member list)) ?search ?url = Inl ''connection refused''"
    by (simp add: extract_documents_def)
  ultimately show ?thesis using strict repl pre1 bad1 pre2 bad2 by simp
qed

subsection \<open>Tokenization and filtering\<close>

lemma tokenize_loop_step:
  "idx < length docs \<Longrightarrow> docs ! idx = Str d \<Longrightarrow>
   tokenize_loop U idx docs
   = tokenize_loop U (Suc idx) (docs[idx := Toks (regexp_tokenize U (py_lower U d))])"
  by (subst tokenize_loop.simps) (simp add: lower_slot_def tokenize_slot_def)

lemma tokenize_loop_done:
  "length docs \<le> idx \<Longrightarrow> tokenize_loop U idx docs = Inr docs"
  by (subst tokenize_loop.simps) simp

lemma tokenize_loop_from:
  "idx \<le> length raw \<Longrightarrow>
   tokenize_loop U idx
     (map (\<lambda>d. Toks (regexp_tokenize U (py_lower U d))) (take idx raw) @ map Str (drop idx raw))
   = Inr (map (\<lambda>d. Toks (regexp_tokenize U (py_lower U d))) raw)"
proof (induction "length raw - idx" arbitrary: idx)
  case 0
  then have "idx = length raw" by simp
  then show ?case by (simp add: tokenize_loop_done)
next
  case (Suc n)
  then have lt: "idx < length raw" by simp
  let ?T = "\<lambda>d. Toks (regexp_tokenize U (py_lower U d))"
  let ?docs = "map ?T (take idx raw) @ map Str (drop idx raw)"
  have at: "?docs ! idx = Str (raw ! idx)"
    using lt by (simp add: nth_append)
  have upd: "?docs[idx := ?T (raw ! idx)]
             = map ?T (take (Suc idx) raw) @ map Str (drop (Suc idx) raw)"
    using lt by (simp add: list_update_append take_Suc_conv_app_nth Cons_nth_drop_Suc [symmetric])
  have len: "idx < length ?docs" using lt by simp
  have "tokenize_loop U idx ?docs = tokenize_loop U (Suc idx) (?docs[idx := ?T (raw ! idx)])"
    using len at by (rule tokenize_loop_step)
  also have "\<dots> = Inr (map ?T raw)"
    unfolding upd using Suc.hyps(1) [of "Suc idx"] Suc.hyps(2) lt by simp
  finally show ?case .
qed

lemma tokenize_loop_total:
  "tokenize_loop U 0 (map Str raw) = Inr (map (\<lambda>d. Toks (regexp_tokenize U (py_lower U d))) raw)"
  using tokenize_loop_from [of 0 raw U] by simp

lemma tokenize_documents_map:
  "tokenize_documents U raw = Inr (map (tokenize_document U) raw)"
  by (simp add: tokenize_documents_def tokenize_loop_total remove_single_chars_def
      remove_numbers_def tokenize_document_def slot_items_def comp_def)

lemma tokenize_document_tokens:
  "token \<in> set (tokenize_document U d) \<Longrightarrow> 2 \<le> length token \<and> \<not> isnumeric U token"
  by (auto simp: tokenize_document_def)

text \<open>
  C3. For every list of raw document strings the tokenization cell returns (it does not
  raise), and in every resulting document every token has at least two characters and
  is not numeric in the sense of \<open>str.isnumeric\<close>.
\<close>

theorem tokens_long_and_not_numeric:
  "\<exists>docs. tokenize_documents U raw = Inr docs
      \<and> (\<forall>doc \<in> set docs. \<forall>token \<in> set doc. 2 \<le> length token \<and> \<not> isnumeric U token)"
  by (auto simp: tokenize_documents_map dest: tokenize_document_tokens)

theorem tokens_long_and_not_numeric_witness:
  "\<forall>U. tokenize_documents U [py ''The 3 x 42 cats a1 2020!'']
          = Inr [[py ''the'', py ''cats'', py ''a1'']]
      \<and> 2 \<le> length (py ''a1'') \<and> \<not> isnumeric U (py ''a1'')"
proof
  fix U
  let ?raw = "[py ''The 3 x 42 cats a1 2020!'']"
  have run: "tokenize_documents U ?raw = Inr [[py ''the'', py ''cats'', py ''a1'']]"
    by (simp add: tokenize_documents_map tokenize_document_def regexp_tokenize_def str_defs)
  from tokens_long_and_not_numeric [of U ?raw] obtain docs where
    docs: "tokenize_documents U ?raw = Inr docs"
    and ok: "\<forall>doc \<in> set docs. \<forall>token \<in> set doc. 2 \<le> length token \<and> \<not> isnumeric U token"
    by blast
  from docs run have "docs = [[py ''the'', py ''cats'', py ''a1'']]" by simp
  with ok have "2 \<le> length (py ''a1'') \<and> \<not> isnumeric U (py ''a1'')" by simp
  with run show "tokenize_documents U ?raw = Inr [[py ''the'', py ''cats'', py ''a1'']]
      \<and> 2 \<le> length (py ''a1'') \<and> \<not> isnumeric U (py ''a1'')" by simp
qed

subsection \<open>Phrase augmentation\<close>

lemma append_bigrams_filter:
  "append_bigrams doc tokens = doc @ filter (contains_char underscore) tokens"
  by (induction tokens arbitrary: doc) simp_all

lemma add_bigrams_loop_step:
  "idx < length docs \<Longrightarrow>
   add_bigrams_loop bigram idx docs
   = add_bigrams_loop bigram (Suc idx) (docs[idx := augment bigram (docs ! idx)])"
  by (subst add_bigrams_loop.simps) (simp add: append_bigrams_filter augment_def)

lemma add_bigrams_loop_done:
  "length docs \<le> idx \<Longrightarrow> add_bigrams_loop bigram idx docs = docs"
  by (subst add_bigrams_loop.simps) simp

lemma add_bigrams_loop_from:
  "idx \<le> length ds \<Longrightarrow>
   add_bigrams_loop bigram idx (map (augment bigram) (take idx ds) @ drop idx ds)
   = map (augment bigram) ds"
proof (induction "length ds - idx" arbitrary: idx)
  case 0
  then have "idx = length ds" by simp
  then show ?case by (simp add: add_bigrams_loop_done)
next
  case (Suc n)
  then have lt: "idx < length ds" by simp
  let ?docs = "map (augment bigram) (take idx ds) @ drop idx ds"
  have at: "?docs ! idx = ds ! idx"
    using lt by (simp add: nth_append)
  have upd: "?docs[idx := augment bigram (ds ! idx)]
             = map (augment bigram) (take (Suc idx) ds) @ drop (Suc idx) ds"
    using lt by (simp add: list_update_append take_Suc_conv_app_nth Cons_nth_drop_Suc [symmetric])
  have len: "idx < length ?docs" using lt by simp
  have "add_bigrams_loop bigram idx ?docs
        = add_bigrams_loop bigram (Suc idx) (?docs[idx := augment bigram (?docs ! idx)])"
    using len by (rule add_bigrams_loop_step)
  also have "\<dots> = map (augment bigram) ds"
    unfolding at upd using Suc.hyps(1) [of "Suc idx"] Suc.hyps(2) lt by simp
  finally show ?case .
qed

lemma add_bigrams_map:
  "add_bigrams phrases docs = map (augment (phrases docs min_count)) docs"
  using add_bigrams_loop_from [of 0 docs "phrases docs min_count"] by (simp add: add_bigrams_def)




lemma preprocess_map:
  "preprocess U lemmatize phrases raw
   = Inr (add_bigrams phrases (map (\<lambda>d. map lemmatize (tokenize_document U d)) raw))"
  by (simp add: preprocess_def tokenize_documents_map lemmatize_documents_def comp_def)

text \<open>
  C9. The cell appends every token of the phrase-transformed sequence that contains an
  underscore. The tokenizer keeps \<open>x_i\<close> as one token. So for the corpus of the one raw
  document \<open>x_i\<close>, whenever the lemmatizer returns that token unchanged and the phrase
  model returns the one-token document unchanged (it has no adjacent pair to promote),
  the document after preprocessing holds the unigram twice.
\<close>

theorem underscore_unigram_duplicated:
  assumes lem: "lemmatize (py ''x_i'') = py ''x_i''"
    and unchanged: "phrases [[py ''x_i'']] min_count [py ''x_i''] = [py ''x_i'']"
  shows "(\<forall>i<length docs. \<forall>token \<in> set (phrases docs min_count (docs ! i)).
            contains_char underscore token \<longrightarrow>
            token \<in> set (drop (length (docs ! i)) (add_bigrams phrases docs ! i)))
     \<and> regexp_tokenize U (py ''x_i'') = [py ''x_i'']
     \<and> preprocess U lemmatize phrases [py ''x_i''] = Inr [[py ''x_i'', py ''x_i'']]"
proof -
  have tok: "tokenize_document U (py ''x_i'') = [py ''x_i'']"
    by (simp add: tokenize_document_def regexp_tokenize_def str_defs)
  have us: "contains_char underscore (py ''x_i'')"
    by (simp add: str_defs)
  have "add_bigrams phrases [[py ''x_i'']] = [[py ''x_i'', py ''x_i'']]"
    using unchanged us by (simp add: add_bigrams_map augment_def)
  then have "preprocess U lemmatize phrases [py ''x_i''] = Inr [[py ''x_i'', py ''x_i'']]"
    using lem tok by (simp add: preprocess_map)
  moreover have "regexp_tokenize U (py ''x_i'') = [py ''x_i'']"
    by (simp add: regexp_tokenize_def str_defs)
  moreover have "\<forall>i<length docs. \<forall>token \<in> set (phrases docs min_count (docs ! i)).
            contains_char underscore token \<longrightarrow>
            token \<in> set (drop (length (docs ! i)) (add_bigrams phrases docs ! i))"
    by (simp add: add_bigrams_map augment_def)
  ultimately show ?thesis by blast
qed

theorem underscore_unigram_duplicated_witness:
  "\<forall>U. preprocess U (\<lambda>token. token) (\<lambda>docs n doc. doc) [py ''x_i'']
        = Inr [[py ''x_i'', py ''x_i'']]"
  using underscore_unigram_duplicated [of "\<lambda>token. token" "\<lambda>docs n doc. doc"] by simp

lemma count_replicate_pair:
  "cooccurrence_count (replicate n [a, b]) a b = n"
  by (induction n) (simp_all add: cooccurrence_count_def adjacent_pairs_def)

text \<open>
  C1. For the phrase detector of the specification, trained with minimum count 20: a
  pair is promoted exactly when its corpus-wide co-occurrence count is at least 20. A
  pair that occurs 19 times is not promoted and the document of the two tokens is left
  as it is; a pair that occurs 20 times is promoted and the document of the two tokens
  becomes the one phrase token.
\<close>

theorem phrase_threshold:
  "(promoted docs min_count a b \<longleftrightarrow> 20 \<le> cooccurrence_count docs a b)
   \<and> Phrases docs min_count [a, b]
       = (if 20 \<le> cooccurrence_count docs a b then [phrase_token a b] else [a, b])
   \<and> (cooccurrence_count docs a b = 19 \<longrightarrow> \<not> promoted docs min_count a b
         \<and> Phrases docs min_count [a, b] = [a, b])
   \<and> (cooccurrence_count docs a b = 20 \<longrightarrow> promoted docs min_count a b
         \<and> Phrases docs min_count [a, b] = [phrase_token a b])"
  by (simp add: promoted_def min_count_def Phrases_def)

theorem phrase_threshold_witness:
  "cooccurrence_count (replicate 19 [py ''machine'', py ''learning'']) (py ''machine'') (py ''learning'') = 19
   \<and> Phrases (replicate 19 [py ''machine'', py ''learning'']) min_count [py ''machine'', py ''learning'']
       = [py ''machine'', py ''learning'']
   \<and> add_bigrams Phrases (replicate 19 [py ''machine'', py ''learning'']) ! 0
       = [py ''machine'', py ''learning'']
   \<and> cooccurrence_count (replicate 20 [py ''machine'', py ''learning'']) (py ''machine'') (py ''learning'') = 20
   \<and> Phrases (replicate 20 [py ''machine'', py ''learning'']) min_count [py ''machine'', py ''learning'']
       = [py ''machine_learning'']
   \<and> add_bigrams Phrases (replicate 20 [py ''machine'', py ''learning'']) ! 0
       = [py ''machine'', py ''learning'', py ''machine_learning'']"
proof -
  let ?a = "py ''machine''" and ?b = "py ''learning''"
  have c19: "cooccurrence_count (replicate 19 [?a, ?b]) ?a ?b = 19"
    by (rule count_replicate_pair)
  have c20: "cooccurrence_count (replicate 20 [?a, ?b]) ?a ?b = 20"
    by (rule count_replicate_pair)
  have tok: "phrase_token ?a ?b = py ''machine_learning''"
    by (simp add: phrase_token_def py_def underscore_def)
  have us: "filter (contains_char underscore) [?a, ?b] = []"
    "filter (contains_char underscore) [py ''machine_learning''] = [py ''machine_learning'']"
    by (simp_all add: str_defs)
  from phrase_threshold [of "replicate 19 [?a, ?b]" ?a ?b] c19
  have p19: "Phrases (replicate 19 [?a, ?b]) min_count [?a, ?b] = [?a, ?b]" by blast
  from phrase_threshold [of "replicate 20 [?a, ?b]" ?a ?b] c20
  have p20: "Phrases (replicate 20 [?a, ?b]) min_count [?a, ?b] = [py ''machine_learning'']"
    unfolding tok by blast
  have "add_bigrams Phrases (replicate 19 [?a, ?b]) ! 0 = [?a, ?b]"
    using p19 us by (simp add: add_bigrams_map augment_def)
  moreover have "add_bigrams Phrases (replicate 20 [?a, ?b]) ! 0 = [?a, ?b, py ''machine_learning'']"
    using p20 us by (simp add: add_bigrams_map augment_def)
  ultimately show ?thesis using c19 c20 p19 p20 by simp
qed

subsection \<open>Vocabulary and vectorization\<close>

lemma set_first_seen [simp]: "set (first_seen xs) = set xs"
  by (simp add: first_seen_def)

lemma fst_set_zip_upt: "fst ` set (zip xs [0..<length xs]) = set xs"
proof -
  have m: "map fst (zip xs [0..<length xs]) = xs" by (simp add: map_fst_zip)
  show ?thesis using arg_cong [OF m, of set] unfolding set_map .
qed

lemma vocabulary_Dictionary: "vocabulary (Dictionary docs) = set (concat docs)"
  using fst_set_zip_upt [of "first_seen (concat docs)"]
  by (simp add: vocabulary_def Dictionary_def Let_def)

lemma vocabulary_filter_extremes:
  "t \<in> vocabulary (filter_extremes nb na (Dictionary docs)) \<longleftrightarrow>
     t \<in> set (concat docs)
     \<and> \<not> (doc_freq docs t < nb \<or> real (doc_freq docs t) > na * real (length docs))"
proof -
  let ?ts = "first_seen (concat docs)"
  have "vocabulary (filter_extremes nb na (Dictionary docs))
        = {t \<in> fst ` set (zip ?ts [0..<length ?ts]).
             \<not> (doc_freq docs t < nb \<or> real (doc_freq docs t) > na * real (length docs))}"
    by (auto simp: vocabulary_def filter_extremes_def Dictionary_def Let_def image_iff)
  moreover have "fst ` set (zip ?ts [0..<length ?ts]) = set (concat docs)"
    using vocabulary_Dictionary [of docs] by (simp add: vocabulary_def Dictionary_def Let_def)
  ultimately show ?thesis by simp
qed

text \<open>
  C2. For the dictionary of the specification, built from a corpus and filtered with
  \<open>no_below = 20\<close> and \<open>no_above = 0.5\<close>: a token of the corpus is removed exactly when
  its document frequency is below 20 or above half the number of documents. For a
  corpus of 100 documents a token in 19 documents is removed, in 20 kept, in 51
  removed, in 50 kept.
\<close>

theorem filter_extremes_bounds:
  "(t \<in> set (concat docs) \<longrightarrow>
      (t \<notin> vocabulary (filter_extremes no_below no_above (Dictionary docs))
       \<longleftrightarrow> doc_freq docs t < 20 \<or> real (doc_freq docs t) > real (length docs) / 2))
   \<and> (length docs = 100 \<and> doc_freq docs t = 19
        \<longrightarrow> t \<notin> vocabulary (filter_extremes no_below no_above (Dictionary docs)))
   \<and> (length docs = 100 \<and> doc_freq docs t = 20 \<and> t \<in> set (concat docs)
        \<longrightarrow> t \<in> vocabulary (filter_extremes no_below no_above (Dictionary docs)))
   \<and> (length docs = 100 \<and> doc_freq docs t = 51
        \<longrightarrow> t \<notin> vocabulary (filter_extremes no_below no_above (Dictionary docs)))
   \<and> (length docs = 100 \<and> doc_freq docs t = 50 \<and> t \<in> set (concat docs)
        \<longrightarrow> t \<in> vocabulary (filter_extremes no_below no_above (Dictionary docs)))"
  by (simp add: vocabulary_filter_extremes no_below_def no_above_def)

lemma hundred_docs_facts:
  "0 < n \<Longrightarrow> n \<le> 100 \<Longrightarrow>
   length (hundred_docs n) = 100 \<and> doc_freq (hundred_docs n) (py ''topic'') = n
   \<and> py ''topic'' \<in> set (concat (hundred_docs n))"
  by (auto simp: hundred_docs_def doc_freq_def py_def)

theorem filter_extremes_bounds_witness:
  "py ''topic'' \<in> set (concat (hundred_docs 19)) \<and> length (hundred_docs 19) = 100
   \<and> doc_freq (hundred_docs 19) (py ''topic'') = 19
   \<and> py ''topic'' \<notin> vocabulary (filter_extremes no_below no_above (Dictionary (hundred_docs 19)))
   \<and> py ''topic'' \<in> set (concat (hundred_docs 20)) \<and> length (hundred_docs 20) = 100
   \<and> doc_freq (hundred_docs 20) (py ''topic'') = 20
   \<and> py ''topic'' \<in> vocabulary (filter_extremes no_below no_above (Dictionary (hundred_docs 20)))
   \<and> py ''topic'' \<in> set (concat (hundred_docs 50)) \<and> length (hundred_docs 50) = 100
   \<and> doc_freq (hundred_docs 50) (py ''topic'') = 50
   \<and> py ''topic'' \<in> vocabulary (filter_extremes no_below no_above (Dictionary (hundred_docs 50)))
   \<and> py ''topic'' \<in> set (concat (hundred_docs 51)) \<and> length (hundred_docs 51) = 100
   \<and> doc_freq (hundred_docs 51) (py ''topic'') = 51
   \<and> py ''topic'' \<notin> vocabulary (filter_extremes no_below no_above (Dictionary (hundred_docs 51)))"
  using filter_extremes_bounds [of "py ''topic''" "hundred_docs 19"]
    filter_extremes_bounds [of "py ''topic''" "hundred_docs 20"]
    filter_extremes_bounds [of "py ''topic''" "hundred_docs 50"]
    filter_extremes_bounds [of "py ''topic''" "hundred_docs 51"]
    hundred_docs_facts [of 19] hundred_docs_facts [of 20]
    hundred_docs_facts [of 50] hundred_docs_facts [of 51]
  by simp

lemma distinct_ids_Dictionary: "distinct (map snd (token2id (Dictionary docs)))"
  by (simp add: Dictionary_def Let_def map_snd_zip)

lemma distinct_ids_filter_extremes:
  "distinct (map snd (token2id d)) \<Longrightarrow> distinct (map snd (token2id (filter_extremes nb na d)))"
  by (simp add: filter_extremes_def distinct_map_filter)

lemma doc2bow_ids: "map fst (doc2bow d doc) = map snd (filter (\<lambda>(t, i). t \<in> set doc) (token2id d))"
  by (simp add: doc2bow_def comp_def case_prod_unfold)

lemma count_list_filter_keep: "P t \<Longrightarrow> count_list (filter P doc) t = count_list doc t"
  by (induction doc) auto

lemma doc2bow_drops_absent:
  "doc2bow d (filter (\<lambda>t. t \<in> vocabulary d) doc) = doc2bow d doc"
proof -
  have voc: "t \<in> vocabulary d" if "(t, i) \<in> set (token2id d)" for t i
    using that by (force simp: vocabulary_def)
  have a: "filter (\<lambda>(t, i). t \<in> set (filter (\<lambda>t. t \<in> vocabulary d) doc)) (token2id d)
        = filter (\<lambda>(t, i). t \<in> set doc) (token2id d)"
    by (rule filter_cong) (auto dest: voc)
  have b: "map (\<lambda>(t, i). (i, count_list (filter (\<lambda>t. t \<in> vocabulary d) doc) t)) xs
        = map (\<lambda>(t, i). (i, count_list doc t)) xs" if "set xs \<subseteq> set (token2id d)" for xs
  proof (rule map_cong)
    fix x assume "x \<in> set xs"
    with that have "x \<in> set (token2id d)" by blast
    then have "fst x \<in> vocabulary d" by (simp add: vocabulary_def)
    then have "count_list (filter (\<lambda>t. t \<in> vocabulary d) doc) (fst x) = count_list doc (fst x)"
      by (rule count_list_filter_keep)
    then show "(case x of (t, i) \<Rightarrow> (i, count_list (filter (\<lambda>t. t \<in> vocabulary d) doc) t))
             = (case x of (t, i) \<Rightarrow> (i, count_list doc t))"
      by (simp add: case_prod_unfold)
  qed simp
  show ?thesis unfolding doc2bow_def a by (rule b) auto
qed

lemma doc2bow_entry:
  "(i, c) \<in> set (doc2bow d doc) \<Longrightarrow>
   \<exists>t. (t, i) \<in> set (token2id d) \<and> t \<in> set doc \<and> c = count_list doc t"
  by (auto simp: doc2bow_def)

text \<open>
  C4. For the dictionary of the specification, built from a corpus and filtered: every
  (id, count) pair of a vectorized document has a count of at least 1 and an id of the
  filtered vocabulary, and is the count of a vocabulary token that occurs in the
  document; the ids of a vectorized document are distinct; a document and the same
  document without its out-of-vocabulary tokens have the same vector, and a document
  with no vocabulary token has the empty vector.
\<close>

theorem doc2bow_pairs:
  assumes "d = filter_extremes nb na (Dictionary docs)"
  shows "(\<forall>(i, c) \<in> set (doc2bow d doc).
           1 \<le> c \<and> i \<in> ids d
           \<and> (\<exists>t. (t, i) \<in> set (token2id d) \<and> t \<in> set doc \<and> c = count_list doc t))
    \<and> distinct (map fst (doc2bow d doc))
    \<and> doc2bow d doc = doc2bow d (filter (\<lambda>t. t \<in> vocabulary d) doc)
    \<and> ((\<forall>t \<in> set doc. t \<notin> vocabulary d) \<longrightarrow> doc2bow d doc = [])"
proof -
  have "distinct (map snd (token2id d))"
    unfolding assms by (rule distinct_ids_filter_extremes) (rule distinct_ids_Dictionary)
  then have "distinct (map fst (doc2bow d doc))"
    by (simp add: doc2bow_ids distinct_map_filter)
  moreover have "\<forall>(i, c) \<in> set (doc2bow d doc).
           1 \<le> c \<and> i \<in> ids d
           \<and> (\<exists>t. (t, i) \<in> set (token2id d) \<and> t \<in> set doc \<and> c = count_list doc t)"
  proof (clarify, intro conjI)
    fix i c assume "(i, c) \<in> set (doc2bow d doc)"
    from doc2bow_entry [OF this] obtain t where
      t: "(t, i) \<in> set (token2id d)" "t \<in> set doc" "c = count_list doc t" by blast
    from t(2) have "count_list doc t \<noteq> 0" by (simp add: count_list_0_iff)
    with t(3) show "1 \<le> c" by simp
    from t(1) show "i \<in> ids d" by (force simp: ids_def)
    from t show "\<exists>t. (t, i) \<in> set (token2id d) \<and> t \<in> set doc \<and> c = count_list doc t" by blast
  qed
  moreover have "(\<forall>t \<in> set doc. t \<notin> vocabulary d) \<longrightarrow> doc2bow d doc = []"
    by (force simp: doc2bow_def vocabulary_def filter_empty_conv)
  ultimately show ?thesis by (simp add: doc2bow_drops_absent)
qed

lemma toy_dictionary:
  "token2id (filter_extremes 2 1 (Dictionary toy_docs)) = [(py ''cat'', 0), (py ''dog'', 1), (py ''bird'', 2)]"
  by (simp add: filter_extremes_def Dictionary_def Let_def first_seen_def toy_docs_def py_def doc_freq_def upt_rec)

theorem doc2bow_pairs_witness:
  "doc2bow (filter_extremes 2 1 (Dictionary toy_docs)) [py ''cat'', py ''fish'', py ''cat'', py ''dog'']
     = [(0, 2), (1, 1)]
   \<and> (0, 2) \<in> set (doc2bow (filter_extremes 2 1 (Dictionary toy_docs))
                     [py ''cat'', py ''fish'', py ''cat'', py ''dog''])
   \<and> 0 \<in> ids (filter_extremes 2 1 (Dictionary toy_docs))
   \<and> py ''fish'' \<notin> vocabulary (filter_extremes 2 1 (Dictionary toy_docs))
   \<and> doc2bow (filter_extremes 2 1 (Dictionary toy_docs)) [py ''fish''] = []"
proof -
  let ?d = "filter_extremes 2 1 (Dictionary toy_docs)"
  let ?doc = "[py ''cat'', py ''fish'', py ''cat'', py ''dog'']"
  have bow: "doc2bow ?d ?doc = [(0, 2), (1, 1)]"
    by (simp add: doc2bow_def toy_dictionary) (simp add: py_def)
  have fish: "\<forall>t \<in> set [py ''fish'']. t \<notin> vocabulary ?d"
    by (simp add: vocabulary_def toy_dictionary) (simp add: py_def)
  note pairs = doc2bow_pairs [of ?d 2 1 toy_docs, OF refl]
  from pairs [of ?doc] bow have "0 \<in> ids ?d" by simp
  moreover from pairs [of "[py ''fish'']"] fish have "doc2bow ?d [py ''fish''] = []" by blast
  ultimately show ?thesis using bow fish by simp
qed

subsection \<open>The corpus through the stages\<close>

text \<open>
  C10. Each stage returns as many documents as it is given, and the document at each
  position of its result is a function of the document at that position of its input
  (for phrase augmentation and vectorization, of that document and the model or
  dictionary built once from the whole corpus).
\<close>

theorem stages_preserve_documents:
  "(\<exists>toks. tokenize_loop U 0 (map Str raw) = Inr toks \<and> length toks = length raw
       \<and> (\<forall>i<length raw. toks ! i = Toks (regexp_tokenize U (py_lower U (raw ! i)))))
   \<and> length (remove_numbers U docs) = length docs
   \<and> (\<forall>i<length docs. remove_numbers U docs ! i
          = filter (\<lambda>token. \<not> isnumeric U token) (docs ! i))
   \<and> length (remove_single_chars docs) = length docs
   \<and> (\<forall>i<length docs. remove_single_chars docs ! i
          = filter (\<lambda>token. length token > 1) (docs ! i))
   \<and> length (lemmatize_documents lemmatize docs) = length docs
   \<and> (\<forall>i<length docs. lemmatize_documents lemmatize docs ! i = map lemmatize (docs ! i))
   \<and> length (add_bigrams phrases docs) = length docs
   \<and> (\<forall>i<length docs. add_bigrams phrases docs ! i
          = docs ! i @ filter (contains_char underscore) (phrases docs min_count (docs ! i)))
   \<and> length (vectorize mk_dictionary filter_ext bow docs) = length docs
   \<and> (\<forall>i<length docs. vectorize mk_dictionary filter_ext bow docs ! i
          = bow (filter_ext no_below no_above (mk_dictionary docs)) (docs ! i))"
  by (simp add: tokenize_loop_total remove_numbers_def remove_single_chars_def
      lemmatize_documents_def add_bigrams_map augment_def vectorize_def)

theorem stages_preserve_documents_witness:
  "(1::nat) < length [py ''Cats sat'', py ''LDA topics''] \<and> (1::nat) < length two_docs
   \<and> (\<forall>U. \<exists>toks. tokenize_loop U 0 (map Str [py ''Cats sat'', py ''LDA topics'']) = Inr toks
          \<and> length toks = 2 \<and> toks ! 1 = Toks [py ''lda'', py ''topics''])
   \<and> (\<forall>U. remove_numbers U two_docs ! 1 = [py ''lda'', py ''x'', py ''topics''])
   \<and> remove_single_chars two_docs ! 1 = [py ''lda'', py ''topics'']
   \<and> lemmatize_documents (\<lambda>t. if t = py ''topics'' then py ''topic'' else t) two_docs ! 1
       = [py ''lda'', py ''7'', py ''x'', py ''topic'']
   \<and> add_bigrams (\<lambda>docs n doc. [py ''lda_topics'']) two_docs ! 1
       = [py ''lda'', py ''7'', py ''x'', py ''topics'', py ''lda_topics'']
   \<and> vectorize (\<lambda>docs. ()) (\<lambda>nb na d. d) (\<lambda>d doc. [(0, length doc)]) two_docs ! 1 = [(0, 4)]"
proof -
  let ?raw = "[py ''Cats sat'', py ''LDA topics'']"
  let ?lem = "\<lambda>t. if t = py ''topics'' then py ''topic'' else t"
  let ?phr = "\<lambda>(docs :: str list list) (n :: nat) (doc :: str list). [py ''lda_topics'']"
  let ?bow = "\<lambda>(d :: unit) (doc :: str list). [(0 :: nat, length doc)]"
  have n: "(1::nat) < length ?raw" "(1::nat) < length two_docs"
    by (simp_all add: two_docs_def)
  have at1: "two_docs ! 1 = [py ''lda'', py ''7'', py ''x'', py ''topics'']"
    by (simp add: two_docs_def)
  have ev: "regexp_tokenize U (py_lower U (?raw ! 1)) = [py ''lda'', py ''topics'']" for U
    by (simp add: regexp_tokenize_def str_defs)
  have us: "filter (contains_char underscore) [py ''lda_topics''] = [py ''lda_topics'']"
    by (simp add: str_defs)
  have num: "filter (\<lambda>token. \<not> isnumeric U token) [py ''lda'', py ''7'', py ''x'', py ''topics'']
      = [py ''lda'', py ''x'', py ''topics'']" for U
    by (simp add: str_defs)
  have single: "filter (\<lambda>token. length token > 1) [py ''lda'', py ''7'', py ''x'', py ''topics'']
      = [py ''lda'', py ''topics'']"
    by (simp add: py_def)
  have lem: "map ?lem [py ''lda'', py ''7'', py ''x'', py ''topics'']
      = [py ''lda'', py ''7'', py ''x'', py ''topic'']"
    by (simp add: py_def)
  note inst = stages_preserve_documents
    [of _ ?raw two_docs ?lem ?phr "\<lambda>docs. ()" "\<lambda>nb na d. d" ?bow]
  have "\<exists>toks. tokenize_loop U 0 (map Str ?raw) = Inr toks
          \<and> length toks = 2 \<and> toks ! 1 = Toks [py ''lda'', py ''topics'']" for U
    using inst [of U] n(1) ev [of U] by auto
  moreover have "remove_numbers U two_docs ! 1 = [py ''lda'', py ''x'', py ''topics'']" for U
    using inst [of U] n(2) num [of U] at1 by simp
  moreover have "remove_single_chars two_docs ! 1 = [py ''lda'', py ''topics'']"
    using inst n(2) single at1 by simp
  moreover have "lemmatize_documents ?lem two_docs ! 1 = [py ''lda'', py ''7'', py ''x'', py ''topic'']"
    using inst n(2) lem at1 by simp
  moreover have "add_bigrams ?phr two_docs ! 1
       = [py ''lda'', py ''7'', py ''x'', py ''topics'', py ''lda_topics'']"
    using inst n(2) us at1 by simp
  moreover have "vectorize (\<lambda>docs. ()) (\<lambda>nb na d. d) ?bow two_docs ! 1 = [(0, 4)]"
    using inst n(2) at1 by simp
  ultimately show ?thesis using n by simp
qed

subsection \<open>Average topic coherence\<close>






end
